theory Spec2Isabelle
  imports Complex_Main "HOL-Library.AList"
begin

section \<open>Log extraction and aggregation of \<^verbatim>\<open>examples/generate_graphs.py\<close>\<close>

text \<open>
  The script reads a simulation log, extracts per-node energy readings, time markers and
  packet delivery ratios with three regular expressions, and draws five charts.

  Conventions of the model:
  \<^item> Python's \<^verbatim>\<open>float\<close> is modelled by \<^typ>\<open>real\<close>: sums and quotients are exact.
  \<^item> A \<^verbatim>\<open>str\<close> is a \<^typ>\<open>string\<close>; only ASCII digits are digits.
  \<^item> An exception is a value \<open>Inl e\<close> of a sum type.
  \<^item> The \<^verbatim>\<open>defaultdict(list)\<close> is an association list in insertion order.
  \<^item> The variable \<^verbatim>\<open>times\<close> is written \<open>tms\<close> (\<open>times\<close> is the product of HOL).
  \<^item> What a function prints, and each figure it saves, is an \<open>event\<close> of its output.
\<close>

subsection \<open>Regular expressions\<close>

text \<open>
  The three patterns of the script are sequences of four kinds of items: a literal, the
  greedy \<^verbatim>\<open>.*\<close>, a non-capturing alternative of literals, and a capturing group
  around a greedy \<^verbatim>\<open>+\<close> of a character class.
\<close>

datatype cclass = Digit | DigitDot

datatype atom = Lit string | AnyStar | Alt "string list" | Cap cclass

definition is_digit :: "char \<Rightarrow> bool" where
  "is_digit c = (c \<in> set ''0123456789'')"

fun in_class :: "cclass \<Rightarrow> char \<Rightarrow> bool" where
  "in_class Digit c = is_digit c"
| "in_class DigitDot c = (is_digit c \<or> c = CHR ''.'')"

text \<open>The dot of a pattern matches every character but the newline.\<close>

definition dot :: "char \<Rightarrow> bool" where
  "dot c = (c \<noteq> CHR 0x0A)"

text \<open>
  \<open>splits P s\<close> lists the ways to cut a run of \<open>P\<close>-characters off the front of \<open>s\<close>,
  the longest run first and the empty run last: the order in which a greedy
  repetition backtracks.
\<close>

fun splits :: "(char \<Rightarrow> bool) \<Rightarrow> string \<Rightarrow> (string \<times> string) list" where
  "splits P [] = [([], [])]"
| "splits P (c # cs) =
     (if P c then map (\<lambda>p. (c # fst p, snd p)) (splits P cs) @ [([], c # cs)]
      else [([], c # cs)])"

definition strip_prefix :: "string \<Rightarrow> string \<Rightarrow> string option" where
  "strip_prefix l s = (if take (length l) s = l then Some (drop (length l) s) else None)"

text \<open>
  \<open>matches p s\<close> lists the captured groups of every way to match \<open>p\<close> at the front of
  \<open>s\<close>, in the order a backtracking matcher finds them.
\<close>

fun matches :: "atom list \<Rightarrow> string \<Rightarrow> string list list" where
  "matches [] s = [[]]"
| "matches (Lit l # p) s =
     (case strip_prefix l s of None \<Rightarrow> [] | Some r \<Rightarrow> matches p r)"
| "matches (AnyStar # p) s =
     concat (map (\<lambda>q. matches p (snd q)) (splits dot s))"
| "matches (Alt ls # p) s =
     concat (map (\<lambda>l. case strip_prefix l s of None \<Rightarrow> [] | Some r \<Rightarrow> matches p r) ls)"
| "matches (Cap k # p) s =
     concat (map (\<lambda>q. map ((#) (fst q)) (matches p (snd q)))
                 (filter (\<lambda>q. fst q \<noteq> []) (splits (in_class k) s)))"

text \<open>\<^verbatim>\<open>re.search\<close>: the first match at the leftmost position that has one.\<close>

fun re_search :: "atom list \<Rightarrow> string \<Rightarrow> string list option" where
  "re_search p [] = (case matches p [] of [] \<Rightarrow> None | g # _ \<Rightarrow> Some g)"
| "re_search p (c # cs) =
     (case matches p (c # cs) of [] \<Rightarrow> re_search p cs | g # _ \<Rightarrow> Some g)"

text \<open>\<^verbatim>\<open>r'Node (\d+):.*(?:Energy|Remaining)=([\d.]+)J'\<close>\<close>

definition energy_pattern :: "atom list" where
  "energy_pattern =
     [Lit ''Node '', Cap Digit, Lit '':'', AnyStar, Alt [''Energy'', ''Remaining''],
      Lit ''='', Cap DigitDot, Lit ''J'']"

text \<open>\<^verbatim>\<open>r'Time: ([\d.]+)'\<close>\<close>

definition time_pattern :: "atom list" where
  "time_pattern = [Lit ''Time: '', Cap DigitDot]"

text \<open>\<^verbatim>\<open>r'PDR: ([\d.]+).*time ([\d.]+)'\<close>\<close>

definition pdr_pattern :: "atom list" where
  "pdr_pattern = [Lit ''PDR: '', Cap DigitDot, AnyStar, Lit ''time '', Cap DigitDot]"

text \<open>The classes of the capturing groups of a pattern, in order.\<close>

fun captures :: "atom list \<Rightarrow> cclass list" where
  "captures [] = []"
| "captures (Cap k # p) = k # captures p"
| "captures (Lit l # p) = captures p"
| "captures (AnyStar # p) = captures p"
| "captures (Alt ls # p) = captures p"

subsection \<open>Conversions\<close>

datatype py_error = FileNotFoundError | IsADirectoryError | PermissionError | ValueError

definition digit_val :: "char \<Rightarrow> nat" where
  "digit_val c = of_char c - 48"

text \<open>
  \<^verbatim>\<open>int(s)\<close> on a string of digits (all that \<^verbatim>\<open>(\d+)\<close> captures). The limit
  that recent interpreters put on the number of digits is left out.
\<close>

definition py_int :: "string \<Rightarrow> nat" where
  "py_int s = foldl (\<lambda>n c. 10 * n + digit_val c) 0 s"

text \<open>
  \<^verbatim>\<open>float(s)\<close> on a string of digits and dots (all that \<^verbatim>\<open>([\d.]+)\<close> captures):
  digits with at most one dot and at least one digit, anything else raises
  \<^verbatim>\<open>ValueError\<close>.
\<close>

definition py_float :: "string \<Rightarrow> py_error + real" where
  "py_float s =
     (let ip = takeWhile is_digit s in
      case dropWhile is_digit s of
        [] \<Rightarrow> if ip = [] then Inl ValueError else Inr (real (py_int ip))
      | c # fp \<Rightarrow>
          if c = CHR ''.'' \<and> list_all is_digit fp \<and> (ip \<noteq> [] \<or> fp \<noteq> [])
          then Inr (real (py_int ip) + real (py_int fp) / 10 ^ length fp)
          else Inl ValueError)"

subsection \<open>The extraction passes\<close>

type_synonym energy_series = "(nat \<times> real list) list"

text \<open>\<^verbatim>\<open>node_energy[nid]\<close>: the sequence of a node, empty for a node not yet seen.\<close>

definition lookup :: "energy_series \<Rightarrow> nat \<Rightarrow> real list" where
  "lookup node_energy nid = (case map_of node_energy nid of None \<Rightarrow> [] | Some es \<Rightarrow> es)"

text \<open>\<^verbatim>\<open>node_energy[node_id].append(energy)\<close>: a new key goes to the end.\<close>

definition append_energy :: "nat \<Rightarrow> real \<Rightarrow> energy_series \<Rightarrow> energy_series" where
  "append_energy node_id energy node_energy =
     AList.update node_id (lookup node_energy node_id @ [energy]) node_energy"

text \<open>Lines 26 to 29: the energy match of a line and its two conversions.\<close>

definition energy_match :: "string \<Rightarrow> (py_error + nat \<times> real) option" where
  "energy_match line =
     (case re_search energy_pattern line of
        None \<Rightarrow> None
      | Some g \<Rightarrow>
          Some (case py_float (g ! 1) of
                  Inl e \<Rightarrow> Inl e
                | Inr energy \<Rightarrow> Inr (py_int (g ! 0), energy)))"

text \<open>Lines 33 to 35: the time match of a line and its conversion.\<close>

definition time_match :: "string \<Rightarrow> (py_error + real) option" where
  "time_match line =
     (case re_search time_pattern line of
        None \<Rightarrow> None
      | Some g \<Rightarrow> Some (py_float (g ! 0)))"

text \<open>The body of the loop of \<^verbatim>\<open>parse_energy_log\<close>, on the pair of its two variables.\<close>

definition energy_step ::
  "string \<Rightarrow> real list \<times> energy_series \<Rightarrow> py_error + real list \<times> energy_series" where
  "energy_step line st =
     (case st of (tms, node_energy) \<Rightarrow>
        (case (case energy_match line of
                 None \<Rightarrow> Inr node_energy
               | Some (Inl e) \<Rightarrow> Inl e
               | Some (Inr (node_id, energy)) \<Rightarrow> Inr (append_energy node_id energy node_energy))
         of Inl e \<Rightarrow> Inl e
          | Inr node_energy' \<Rightarrow>
              (case time_match line of
                 None \<Rightarrow> Inr (tms, node_energy')
               | Some (Inl e) \<Rightarrow> Inl e
               | Some (Inr t) \<Rightarrow> Inr (tms @ [t], node_energy'))))"

fun energy_loop ::
  "string list \<Rightarrow> real list \<times> energy_series \<Rightarrow> py_error + real list \<times> energy_series" where
  "energy_loop [] st = Inr st"
| "energy_loop (line # rest) st =
     (case energy_step line st of Inl e \<Rightarrow> Inl e | Inr st' \<Rightarrow> energy_loop rest st')"

text \<open>Lines 47 to 50: the match of a line of the second pass and its two conversions.\<close>

definition pdr_match :: "string \<Rightarrow> (py_error + real \<times> real) option" where
  "pdr_match line =
     (case re_search pdr_pattern line of
        None \<Rightarrow> None
      | Some g \<Rightarrow>
          Some (case py_float (g ! 0) of
                  Inl e \<Rightarrow> Inl e
                | Inr pdr \<Rightarrow>
                    (case py_float (g ! 1) of
                       Inl e \<Rightarrow> Inl e
                     | Inr t \<Rightarrow> Inr (pdr, t))))"

text \<open>The body of the loop of \<^verbatim>\<open>parse_pdr_log\<close>, on the pair (times, pdr\_values).\<close>

definition pdr_step ::
  "string \<Rightarrow> real list \<times> real list \<Rightarrow> py_error + real list \<times> real list" where
  "pdr_step line st =
     (case st of (tms, pdr_values) \<Rightarrow>
        (case pdr_match line of
           None \<Rightarrow> Inr (tms, pdr_values)
         | Some (Inl e) \<Rightarrow> Inl e
         | Some (Inr (pdr, t)) \<Rightarrow> Inr (tms @ [t], pdr_values @ [pdr])))"

fun pdr_loop ::
  "string list \<Rightarrow> real list \<times> real list \<Rightarrow> py_error + real list \<times> real list" where
  "pdr_loop [] st = Inr st"
| "pdr_loop (line # rest) st =
     (case pdr_step line st of Inl e \<Rightarrow> Inl e | Inr st' \<Rightarrow> pdr_loop rest st')"

subsection \<open>Files\<close>

text \<open>
  A path names a text file that can be read, a file that cannot, a directory, or
  nothing. The file is opened in text mode with universal newlines: a carriage return,
  alone or before a line feed, is read as a line feed. Iterating over the open file
  yields its lines, each with its line feed (the last line may have none).
\<close>

datatype fs_entry = TextFile string | Unreadable | Directory

type_synonym filesystem = "string \<rightharpoonup> fs_entry"

definition path_exists :: "filesystem \<Rightarrow> string \<Rightarrow> bool" where
  "path_exists fs filename = (fs filename \<noteq> None)"

definition py_open :: "filesystem \<Rightarrow> string \<Rightarrow> py_error + string" where
  "py_open fs filename =
     (case fs filename of
        None \<Rightarrow> Inl FileNotFoundError
      | Some Directory \<Rightarrow> Inl IsADirectoryError
      | Some Unreadable \<Rightarrow> Inl PermissionError
      | Some (TextFile text) \<Rightarrow> Inr text)"

fun lines_from :: "string \<Rightarrow> string \<Rightarrow> string list" where
  "lines_from acc [] = (if acc = [] then [] else [acc])"
| "lines_from acc (c # cs) =
     (if c = CHR 0x0A then (acc @ [c]) # lines_from [] cs else lines_from (acc @ [c]) cs)"

fun universal_newlines :: "string \<Rightarrow> string" where
  "universal_newlines [] = []"
| "universal_newlines [c] = [if c = CHR 0x0D then CHR 0x0A else c]"
| "universal_newlines (c # d # cs) =
     (if c = CHR 0x0D
      then (if d = CHR 0x0A then CHR 0x0A # universal_newlines cs
            else CHR 0x0A # universal_newlines (d # cs))
      else c # universal_newlines (d # cs))"

definition file_lines :: "string \<Rightarrow> string list" where
  "file_lines text = lines_from [] (universal_newlines text)"

subsection \<open>Output\<close>

text \<open>
  A figure is what was drawn on it and the file it was saved to; axis labels, titles,
  colours and grids are left out. Saving a figure is taken not to fail.
\<close>

datatype artist =
    Line "real list" "real list" string
  | Bar "real list" "real list" "string option"

record figure =
  artists :: "artist list"
  output_file :: string

datatype event = Print string | Saved figure

text \<open>The artists of every figure saved, in order.\<close>

definition drawn :: "event list \<Rightarrow> artist list" where
  "drawn evs = concat (map (\<lambda>ev. case ev of Print _ \<Rightarrow> [] | Saved fig \<Rightarrow> artists fig) evs)"

definition saved_files :: "event list \<Rightarrow> string list" where
  "saved_files evs =
     concat (map (\<lambda>ev. case ev of Print _ \<Rightarrow> [] | Saved fig \<Rightarrow> [output_file fig]) evs)"

text \<open>\<^verbatim>\<open>plt.savefig(output_file, ...)\<close> and the \<^verbatim>\<open>print\<close> after it.\<close>

definition save_and_report :: "artist list \<Rightarrow> string \<Rightarrow> event list" where
  "save_and_report as file =
     [Saved \<lparr>artists = as, output_file = file\<rparr>, Print (''[OK] Graph saved: '' @ file)]"

fun str :: "nat \<Rightarrow> string" where
  "str n =
     (if n < 10 then [char_of (48 + n)]
      else str (n div 10) @ [char_of (48 + n mod 10)])"

subsection \<open>The extractor\<close>

text \<open>
  \<^verbatim>\<open>parse_energy_log\<close> returns \<^verbatim>\<open>(None, None)\<close> for a path that does not exist
  (here \<open>None\<close>), after printing a message; otherwise it opens the file and runs the loop.
\<close>

definition parse_energy_log ::
  "filesystem \<Rightarrow> string \<Rightarrow> (py_error + (real list \<times> energy_series) option) \<times> event list" where
  "parse_energy_log fs filename =
     (if \<not> path_exists fs filename
      then (Inr None, [Print (''Error: File '' @ filename @ '' not found'')])
      else
        (case py_open fs filename of
           Inl e \<Rightarrow> (Inl e, [])
         | Inr text \<Rightarrow>
             (case energy_loop (file_lines text) ([], []) of
                Inl e \<Rightarrow> (Inl e, [])
              | Inr st \<Rightarrow> (Inr (Some st), []))))"

text \<open>\<^verbatim>\<open>parse_pdr_log\<close> opens the file at once.\<close>

definition parse_pdr_log :: "filesystem \<Rightarrow> string \<Rightarrow> py_error + real list \<times> real list" where
  "parse_pdr_log fs filename =
     (case py_open fs filename of
        Inl e \<Rightarrow> Inl e
      | Inr text \<Rightarrow> pdr_loop (file_lines text) ([], []))"

subsection \<open>The aggregator and the charts\<close>

definition plot_energy_consumption :: "real list \<Rightarrow> energy_series \<Rightarrow> string \<Rightarrow> event list" where
  "plot_energy_consumption tms node_energy file =
     save_and_report
       (map (\<lambda>node_id. Line tms (lookup node_energy node_id) (''Node '' @ str node_id))
            (filter (\<lambda>node_id. length (lookup node_energy node_id) = length tms)
                    (take 10 (sort (map fst node_energy)))))
       file"

text \<open>Lines 80 to 85: the list \<^verbatim>\<open>avg_energy\<close>.\<close>

definition avg_energy :: "real list \<Rightarrow> energy_series \<Rightarrow> real list" where
  "avg_energy tms node_energy =
     (let num_nodes = length node_energy in
      map (\<lambda>i.
             let total = sum_list (map (\<lambda>nid. lookup node_energy nid ! i)
                                       (filter (\<lambda>nid. i < length (lookup node_energy nid))
                                               (map fst node_energy)))
             in if num_nodes > 0 then total / real num_nodes else 0)
          [0..<length tms])"

definition plot_average_energy :: "real list \<Rightarrow> energy_series \<Rightarrow> string \<Rightarrow> event list" where
  "plot_average_energy tms node_energy file =
     save_and_report
       (if node_energy \<noteq> []
        then [Line tms (avg_energy tms node_energy) ''Average Energy'']
        else [])
       file"

definition plot_packet_delivery_ratio :: "real list \<Rightarrow> real list \<Rightarrow> string \<Rightarrow> event list" where
  "plot_packet_delivery_ratio tms pdr_values file =
     save_and_report
       (if tms \<noteq> [] \<and> pdr_values \<noteq> []
        then [Line tms pdr_values ''Packet Delivery Ratio'']
        else [])
       file"

text \<open>Lines 122 to 130: the lists \<^verbatim>\<open>node_ids\<close> and \<^verbatim>\<open>lifetimes\<close>.\<close>

definition lifetime_table :: "energy_series \<Rightarrow> nat list \<times> nat list" where
  "lifetime_table node_energy =
     (let node_ids = sort (map fst node_energy)
      in (node_ids, map (\<lambda>node_id. length (lookup node_energy node_id)) node_ids))"

definition plot_network_lifetime :: "energy_series \<Rightarrow> string \<Rightarrow> event list" where
  "plot_network_lifetime node_energy file =
     (case lifetime_table node_energy of
        (node_ids, lifetimes) \<Rightarrow>
          save_and_report
            [Bar (map real (take 20 node_ids)) (map real (take 20 lifetimes)) None]
            file)"

definition plot_energy_efficiency_comparison :: "string \<Rightarrow> event list" where
  "plot_energy_efficiency_comparison file =
     (let node_counts = [10, 15, 20, 25, 30 :: nat];
          energy_aware = [85 / 100, 82 / 100, 78 / 100, 75 / 100, 72 / 100];
          standard = [65 / 100, 60 / 100, 55 / 100, 50 / 100, 45 / 100];
          x = map real [0..<length node_counts];
          width = 35 / 100
      in save_and_report
           [Bar (map (\<lambda>v. v - width / 2) x) energy_aware (Some ''Energy-Aware''),
            Bar (map (\<lambda>v. v + width / 2) x) standard (Some ''Standard Epidemic'')]
           file)"

subsection \<open>The top level\<close>

text \<open>Lines 172 to 175: the log file is the first argument, when there is one.\<close>

definition log_file_of :: "string list \<Rightarrow> string" where
  "log_file_of argv = (if length argv > 1 then argv ! 1 else ''simulation.log'')"

definition banner :: string where
  "banner = replicate 60 CHR ''=''"

definition main :: "filesystem \<Rightarrow> string list \<Rightarrow> (py_error + unit) \<times> event list" where
  "main fs argv =
     (let log_file = log_file_of argv;
          out0 = [Print banner,
                  Print ''Energy-Aware Epidemic Routing - Graph Generation'',
                  Print banner,
                  Print (''\<newline>Parsing log file: '' @ log_file)]
      in case parse_energy_log fs log_file of
           (Inl e, out1) \<Rightarrow> (Inl e, out0 @ out1)
         | (Inr None, out1) \<Rightarrow>
             (Inr (), out0 @ out1 @ [Print ''Error: Could not parse log file''])
         | (Inr (Some (tms, node_energy)), out1) \<Rightarrow>
             (let out2 = out0 @ out1 @ [Print ''\<newline>Generating graphs...''] @
                    (if tms \<noteq> [] \<and> node_energy \<noteq> []
                     then plot_energy_consumption tms node_energy ''energy_consumption.png'' @
                          plot_average_energy tms node_energy ''average_energy.png'' @
                          plot_network_lifetime node_energy ''network_lifetime.png''
                     else [])
              in case parse_pdr_log fs log_file of
                   Inl e \<Rightarrow> (Inl e, out2)
                 | Inr (times_pdr, pdr_values) \<Rightarrow>
                     (Inr (),
                      out2 @
                      (if times_pdr \<noteq> [] \<and> pdr_values \<noteq> []
                       then plot_packet_delivery_ratio times_pdr pdr_values ''pdr_graph.png''
                       else []) @
                      plot_energy_efficiency_comparison ''energy_efficiency.png'' @
                      [Print (''\<newline>'' @ banner),
                       Print ''All graphs generated successfully!'',
                       Print banner,
                       Print ''\<newline>Generated files:'',
                       Print ''  - energy_consumption.png'',
                       Print ''  - average_energy.png'',
                       Print ''  - pdr_graph.png'',
                       Print ''  - network_lifetime.png'',
                       Print ''  - energy_efficiency.png''])))"

subsection \<open>Vocabulary of the properties\<close>

text \<open>What the lines of a log contribute, in order, when no conversion raises.\<close>

definition time_events :: "string list \<Rightarrow> real list" where
  "time_events lines =
     concat (map (\<lambda>line. case time_match line of Some (Inr t) \<Rightarrow> [t] | _ \<Rightarrow> []) lines)"

definition energy_events :: "string list \<Rightarrow> (nat \<times> real) list" where
  "energy_events lines =
     concat (map (\<lambda>line. case energy_match line of Some (Inr x) \<Rightarrow> [x] | _ \<Rightarrow> []) lines)"

definition pdr_events :: "string list \<Rightarrow> (real \<times> real) list" where
  "pdr_events lines =
     concat (map (\<lambda>line. case pdr_match line of Some (Inr x) \<Rightarrow> [x] | _ \<Rightarrow> []) lines)"

text \<open>The readings of one node among the energy events.\<close>

definition readings_of :: "nat \<Rightarrow> (nat \<times> real) list \<Rightarrow> real list" where
  "readings_of nid evs = map snd (filter (\<lambda>x. fst x = nid) evs)"

text \<open>The elements of a list in the order of their first occurrence.\<close>

definition first_seen :: "'a list \<Rightarrow> 'a list" where
  "first_seen ks = rev (remdups (rev ks))"

text \<open>The entry of a node in the table of lifetimes, read off the two lists.\<close>

definition lifetime_of :: "energy_series \<Rightarrow> nat \<Rightarrow> nat option" where
  "lifetime_of node_energy nid =
     (case lifetime_table node_energy of
        (node_ids, lifetimes) \<Rightarrow> map_of (zip node_ids lifetimes) nid)"

text \<open>The scenario of seven lines, in a file of its own.\<close>

definition scenario_text :: string where
  "scenario_text =
     ''Time: 0.0\<newline>Node 1: Energy=1000.0J\<newline>Node 2: Energy=950.0J\<newline>Time: 1.0\<newline>Node 1: Energy=900.0J\<newline>Node 2: Energy=800.0J\<newline>PDR: 0.90 at time 1.0\<newline>''"

definition scenario_fs :: filesystem where
  "scenario_fs = [''simulation.log'' \<mapsto> TextFile scenario_text]"

definition scenario_energy :: energy_series where
  "scenario_energy = [(1, [1000, 900]), (2, [950, 800])]"

text \<open>
  A line holds both fields of the ratio pattern when it holds the marker of the ratio
  directly followed by a run of digits and dots and, later with no line feed between,
  the marker of the time directly followed by a run of digits and dots.
\<close>

abbreviation has_both_fields :: "string \<Rightarrow> bool" where
  "has_both_fields line \<equiv>
     (\<exists>a r b t c. line = a @ ''PDR: '' @ r @ b @ ''time '' @ t @ c
        \<and> r \<noteq> [] \<and> list_all (in_class DigitDot) r \<and> list_all dot b
        \<and> t \<noteq> [] \<and> list_all (in_class DigitDot) t)"

text \<open>
  A log whose first line holds a time and a reading, with node 3 seen before node 1;
  a log whose lines after the first hold one field of the ratio pattern each, or the
  two markers with no time value; and a second file system that holds the text of the
  scenario under another name and a directory under the name of the log.
\<close>

definition mixed_lines :: "string list" where
  "mixed_lines =
     [''Time: 2.0 Node 3: Energy=5.5J\<newline>'',
      ''routing table updated\<newline>'',
      ''Node 1: sent 4 packets, Remaining=7J\<newline>'',
      ''Node 3: Energy=4J'']"

definition pdr_lines :: "string list" where
  "pdr_lines =
     [''PDR: 0.85 at time 100.0\<newline>'', ''PDR: 0.85\<newline>'', ''at time 5.0\<newline>'',
      ''PDR: 0.85 at time unknown\<newline>'']"

definition other_fs :: filesystem where
  "other_fs = [''copy.log'' \<mapsto> TextFile scenario_text, ''simulation.log'' \<mapsto> Directory]"


section \<open>Properties\<close>

subsection \<open>The mapping from nodes to sequences\<close>

lemma lookup_append_energy:
  "lookup (append_energy k v ne) k' = (if k' = k then lookup ne k @ [v] else lookup ne k')"
  by (simp add: lookup_def append_energy_def update_conv')

lemma keys_append_energy:
  "map fst (append_energy k v ne) =
     (if k \<in> set (map fst ne) then map fst ne else map fst ne @ [k])"
  by (simp add: append_energy_def update_keys)

lemma distinct_append_energy:
  "distinct (map fst ne) \<Longrightarrow> distinct (map fst (append_energy k v ne))"
  by (simp add: append_energy_def distinct_update)

lemma first_seen_distinct: "distinct ks \<Longrightarrow> first_seen ks = ks"
  by (simp add: first_seen_def distinct_remdups_id)

lemma first_seen_snoc:
  "first_seen (ks @ [k]) = (if k \<in> set ks then first_seen ks else first_seen ks @ [k])"
  by (simp add: first_seen_def)

lemma set_first_seen: "set (first_seen ks) = set ks"
  by (simp add: first_seen_def)

lemma distinct_first_seen: "distinct (first_seen ks)"
  by (simp add: first_seen_def)

subsection \<open>The loop of the first pass\<close>

lemma energy_loop_snoc:
  "energy_loop (ls @ [l]) st =
     (case energy_loop ls st of Inl e \<Rightarrow> Inl e | Inr st' \<Rightarrow> energy_step l st')"
  by (induction ls arbitrary: st) (auto split: sum.splits)

lemma energy_step_cases:
  assumes "energy_step l (tms0, ne0) = Inr (tms1, ne1)"
  shows "(\<forall>e. energy_match l \<noteq> Some (Inl e)) \<and> (\<forall>e. time_match l \<noteq> Some (Inl e))
       \<and> tms1 = tms0 @ time_events [l]
       \<and> ne1 = (case energy_match l of Some (Inr (k, v)) \<Rightarrow> append_energy k v ne0 | _ \<Rightarrow> ne0)"
  using assms
  by (auto simp: energy_step_def time_events_def split: option.splits sum.splits prod.splits)

lemma time_events_snoc: "time_events (ls @ [l]) = time_events ls @ time_events [l]"
  by (simp add: time_events_def)

lemma energy_events_snoc: "energy_events (ls @ [l]) = energy_events ls @ energy_events [l]"
  by (simp add: energy_events_def)

lemma energy_events_single:
  "energy_events [l] = (case energy_match l of Some (Inr x) \<Rightarrow> [x] | _ \<Rightarrow> [])"
  by (simp add: energy_events_def)

lemma energy_loop_char:
  assumes "energy_loop lines (tms0, ne0) = Inr (tms, ne)" and "distinct (map fst ne0)"
  shows "tms = tms0 @ time_events lines
       \<and> distinct (map fst ne)
       \<and> map fst ne = first_seen (map fst ne0 @ map fst (energy_events lines))
       \<and> (\<forall>nid. lookup ne nid = lookup ne0 nid @ readings_of nid (energy_events lines))
       \<and> (\<forall>line \<in> set lines.
            \<forall>e. energy_match line \<noteq> Some (Inl e) \<and> time_match line \<noteq> Some (Inl e))"
  using assms
proof (induction lines arbitrary: tms ne rule: rev_induct)
  case Nil
  then show ?case
    by (simp add: time_events_def energy_events_def readings_of_def first_seen_distinct)
next
  case (snoc l ls)
  from snoc.prems(1) obtain tms1 ne1 where
    mid: "energy_loop ls (tms0, ne0) = Inr (tms1, ne1)" and
    step: "energy_step l (tms1, ne1) = Inr (tms, ne)"
    by (auto simp: energy_loop_snoc split: sum.splits)
  note ih = snoc.IH [OF mid snoc.prems(2)]
  note sc = energy_step_cases [OF step]
  have d1: "distinct (map fst ne1)"
    using ih by blast
  have k1: "map fst ne1 = first_seen (map fst ne0 @ map fst (energy_events ls))"
    using ih by blast
  have t: "tms = tms0 @ time_events (ls @ [l])"
    using ih sc by (simp add: time_events_snoc)
  have noraise: "\<forall>line \<in> set (ls @ [l]).
      \<forall>e. energy_match line \<noteq> Some (Inl e) \<and> time_match line \<noteq> Some (Inl e)"
    using ih sc by auto
  show ?case
  proof (cases "energy_match l")
    case None
    then have "ne = ne1" and "energy_events [l] = []"
      using sc by (simp_all add: energy_events_single)
    then show ?thesis
      using ih t noraise by (simp add: energy_events_snoc distinct_first_seen)
  next
    case (Some r)
    then obtain k v where r: "r = Inr (k, v)"
      using sc by (cases r) auto
    have ne: "ne = append_energy k v ne1" and ev: "energy_events [l] = [(k, v)]"
      using sc Some r by (simp_all add: energy_events_single)
    have "distinct (map fst ne)"
      using d1 ne by (simp add: distinct_append_energy)
    moreover have "map fst ne = first_seen (map fst ne0 @ map fst (energy_events (ls @ [l])))"
    proof -
      have "first_seen (map fst ne0 @ map fst (energy_events (ls @ [l])))
          = first_seen ((map fst ne0 @ map fst (energy_events ls)) @ [k])"
        by (simp add: energy_events_snoc ev)
      also have "\<dots> = (if k \<in> set (map fst ne1) then map fst ne1 else map fst ne1 @ [k])"
        unfolding first_seen_snoc k1 [symmetric]
        by (simp add: k1 set_first_seen)
      finally show ?thesis
        by (simp add: ne keys_append_energy)
    qed
    moreover have
      "\<forall>nid. lookup ne nid = lookup ne0 nid @ readings_of nid (energy_events (ls @ [l]))"
      using ih by (simp add: ne lookup_append_energy energy_events_snoc ev readings_of_def)
    ultimately show ?thesis
      using t noraise by blast
  qed
qed

subsection \<open>Captured groups and their conversion\<close>

text \<open>
  Every group of a match is a non-empty string of its class, and a pattern yields as
  many groups as it has capturing groups: the groups read by the passes exist, and
  \<open>py_float\<close> is applied to strings of digits and dots only. On digits with at most one
  dot the conversion returns.
\<close>

lemma splits_run: "(a, r) \<in> set (splits P s) \<Longrightarrow> list_all P a"
  by (induction s arbitrary: a r) (auto split: if_splits)

lemma matches_groups:
  "g \<in> set (matches p s) \<Longrightarrow>
     list_all2 (\<lambda>x k. x \<noteq> [] \<and> list_all (in_class k) x) g (captures p)"
proof (induction p s arbitrary: g rule: matches.induct)
  case (1 s)
  then show ?case by simp
next
  case (2 l p s)
  then show ?case by (cases "strip_prefix l s") auto
next
  case (3 p s)
  then show ?case by auto
next
  case (4 ls p s)
  from "4.prems" obtain l where l: "l \<in> set ls"
    and m: "g \<in> set (case strip_prefix l s of None \<Rightarrow> [] | Some r \<Rightarrow> matches p r)"
    by auto
  then show ?case
    using "4.IH" by (cases "strip_prefix l s") auto
next
  case (5 k p s)
  then show ?case by (auto dest: splits_run)
qed

lemma re_search_groups:
  "re_search p s = Some g \<Longrightarrow>
     list_all2 (\<lambda>x k. x \<noteq> [] \<and> list_all (in_class k) x) g (captures p)"
proof (induction s)
  case Nil
  then have "g \<in> set (matches p [])" by (auto split: list.splits)
  then show ?case by (rule matches_groups)
next
  case (Cons c cs)
  show ?case
  proof (cases "matches p (c # cs)")
    case Nil
    then show ?thesis using Cons by simp
  next
    case (Cons g' gs)
    then have "g \<in> set (matches p (c # cs))" using Cons.prems by simp
    then show ?thesis by (rule matches_groups)
  qed
qed

lemma py_float_digits:
  assumes "list_all is_digit s" and "s \<noteq> []"
  shows "py_float s = Inr (real (py_int s))"
proof -
  have t: "takeWhile is_digit s = s" and d: "dropWhile is_digit s = []"
    using assms(1) by (simp_all add: list_all_iff)
  show ?thesis
    unfolding py_float_def Let_def t d using assms(2) by simp
qed

lemma is_digit_not_dot: "is_digit c \<Longrightarrow> c \<noteq> CHR ''.''"
  by (auto simp: is_digit_def)

lemma py_float_decimal:
  assumes "list_all is_digit a" and "list_all is_digit b" and "a \<noteq> [] \<or> b \<noteq> []"
  shows "py_float (a @ ''.'' @ b) = Inr (real (py_int a) + real (py_int b) / 10 ^ length b)"
proof -
  have nd: "\<not> is_digit CHR ''.''"
    by (simp add: is_digit_def)
  have t: "takeWhile is_digit (a @ ''.'' @ b) = a"
    using assms(1) nd by (simp add: list_all_iff)
  have d: "dropWhile is_digit (a @ ''.'' @ b) = ''.'' @ b"
    using assms(1) nd by (simp add: list_all_iff)
  show ?thesis
    unfolding py_float_def Let_def t d using assms(2,3) by simp
qed

lemma energy_groups:
  assumes "re_search energy_pattern line = Some g"
  shows "\<exists>a b. g = [a, b] \<and> a \<noteq> [] \<and> list_all is_digit a
            \<and> b \<noteq> [] \<and> list_all (in_class DigitDot) b"
  using re_search_groups [OF assms]
  by (auto simp: energy_pattern_def list_all2_Cons2 list_all_iff)

lemma time_groups:
  assumes "re_search time_pattern line = Some g"
  shows "\<exists>a. g = [a] \<and> a \<noteq> [] \<and> list_all (in_class DigitDot) a"
  using re_search_groups [OF assms]
  by (auto simp: time_pattern_def list_all2_Cons2)

lemma pdr_groups:
  assumes "re_search pdr_pattern line = Some g"
  shows "\<exists>a b. g = [a, b] \<and> a \<noteq> [] \<and> list_all (in_class DigitDot) a
            \<and> b \<noteq> [] \<and> list_all (in_class DigitDot) b"
  using re_search_groups [OF assms]
  by (auto simp: pdr_pattern_def list_all2_Cons2)

subsection \<open>The scenario of seven lines\<close>

lemma scenario_energy_pass:
  "parse_energy_log scenario_fs ''simulation.log'' = (Inr (Some ([0, 1], scenario_energy)), [])"
  by code_simp

lemma scenario_energy_loop:
  "energy_loop (file_lines scenario_text) ([], []) = Inr ([0, 1], scenario_energy)"
  by code_simp

lemma scenario_pdr_pass:
  "parse_pdr_log scenario_fs ''simulation.log'' = Inr ([1], [9 / 10])"
  by code_simp

lemma scenario_average: "avg_energy [0, 1] scenario_energy = [975, 850]"
  by code_simp

lemma scenario_lifetimes: "lifetime_table scenario_energy = ([1, 2], [2, 2])"
  by code_simp

lemma scenario_no_final_newline:
  "energy_loop (file_lines (butlast scenario_text)) ([], []) = Inr ([0, 1], scenario_energy)
   \<and> pdr_loop (file_lines (butlast scenario_text)) ([], []) = Inr ([1], [9 / 10])"
  by code_simp

text \<open>
  A carriage return ends a line as a line feed does: a ratio and a time on the two
  sides of one are on two lines, and the second pass returns no row.
\<close>

lemma carriage_return_ends_line:
  "file_lines (''PDR: 0.5'' @ [CHR 0x0D] @ ''at time 2\<newline>'')
     = [''PDR: 0.5\<newline>'', ''at time 2\<newline>'']
   \<and> file_lines (''a'' @ [CHR 0x0D, CHR 0x0A] @ ''b'') = [''a\<newline>'', ''b'']
   \<and> pdr_loop (file_lines (''PDR: 0.5'' @ [CHR 0x0D] @ ''at time 2\<newline>'')) ([], [])
       = Inr ([], [])"
  by code_simp

lemma scenario_pdr_line_has_no_time: "time_match ''PDR: 0.90 at time 1.0\<newline>'' = None"
  by code_simp

text \<open>
  Claim C3. On the scenario of seven lines the first pass returns the time sequence
  \<open>[0, 1]\<close> and the mapping of node 1 to \<open>[1000, 900]\<close> and node 2 to \<open>[950, 800]\<close>;
  the averages are \<open>[975, 850]\<close>, the lifetimes of nodes 1 and 2 are both 2, and the
  second pass returns the times \<open>[1]\<close> and the ratios \<open>[0.9]\<close>. The line of the ratio
  has no time match. The same holds when the last line has no newline.
\<close>

theorem scenario_end_to_end:
  "parse_energy_log scenario_fs ''simulation.log'' = (Inr (Some ([0, 1], scenario_energy)), [])
   \<and> scenario_energy = [(1, [1000, 900]), (2, [950, 800])]
   \<and> avg_energy [0, 1] scenario_energy = [975, 850]
   \<and> lifetime_table scenario_energy = ([1, 2], [2, 2])
   \<and> parse_pdr_log scenario_fs ''simulation.log'' = Inr ([1], [9 / 10])
   \<and> time_match ''PDR: 0.90 at time 1.0\<newline>'' = None
   \<and> energy_loop (file_lines (butlast scenario_text)) ([], []) = Inr ([0, 1], scenario_energy)
   \<and> pdr_loop (file_lines (butlast scenario_text)) ([], []) = Inr ([1], [9 / 10])"
  using scenario_energy_pass scenario_pdr_pass scenario_average scenario_lifetimes
    scenario_no_final_newline scenario_pdr_line_has_no_time
  by (simp add: scenario_energy_def)

text \<open>
  Claim C5, as stated, fails: with an empty mapping and the time sequence \<open>[0, 1]\<close>
  the chart of the average does not hold the line of zeros \<open>[0, 0]\<close>.
\<close>

theorem average_of_empty_series_counterexample:
  "drawn (plot_average_energy [0, 1] [] ''average_energy.png'')
     \<noteq> [Line [0, 1] [0, 0] ''Average Energy'']"
  by (simp add: drawn_def plot_average_energy_def save_and_report_def)

text \<open>
  Claim C5, amended. With an empty mapping the guard of \<^verbatim>\<open>plot_average_energy\<close>
  skips the computation: no average sequence is made, nothing is drawn and nothing is
  divided; the empty figure is still saved.
\<close>

theorem average_of_empty_series:
  "drawn (plot_average_energy tms [] file) = []
   \<and> saved_files (plot_average_energy tms [] file) = [file]"
  by (simp add: drawn_def saved_files_def plot_average_energy_def save_and_report_def)

text \<open>
  Claim C7. For a path that names nothing, \<^verbatim>\<open>parse_energy_log\<close> prints a message and
  returns its pair of \<^verbatim>\<open>None\<close>, but \<^verbatim>\<open>parse_pdr_log\<close> has no such check and raises
  \<^verbatim>\<open>FileNotFoundError\<close> from \<^verbatim>\<open>open\<close>. For a path that names a directory the
  check of \<^verbatim>\<open>parse_energy_log\<close> passes and \<^verbatim>\<open>open\<close> raises there too.
\<close>

theorem pdr_pass_missing_file_raises:
  "parse_pdr_log Map.empty ''missing.log'' = Inl FileNotFoundError
   \<and> parse_energy_log Map.empty ''missing.log''
       = (Inr None, [Print ''Error: File missing.log not found''])
   \<and> parse_energy_log other_fs ''simulation.log'' = (Inl IsADirectoryError, [])"
  by code_simp

text \<open>
  Claim C10. A string captured by \<^verbatim>\<open>[\d.]+\<close> need not be a number: after a time
  that ends a sentence the group is \<^verbatim>\<open>1.0.\<close>, and the conversion raises
  \<^verbatim>\<open>ValueError\<close> in either pass.
\<close>

theorem conversion_of_capture_raises:
  "energy_step ''Time: 1.0.\<newline>'' ([], []) = Inl ValueError
   \<and> energy_step ''Node 1: Energy=1.2.3J\<newline>'' ([], []) = Inl ValueError
   \<and> pdr_step ''PDR: 0.90 at time 1.0.\<newline>'' ([], []) = Inl ValueError
   \<and> re_search time_pattern ''Time: 1.0.\<newline>'' = Some [''1.0.'']"
  by code_simp

subsection \<open>The aggregator\<close>

lemma lookup_entry: "distinct (map fst ne) \<Longrightarrow> (nid, es) \<in> set ne \<Longrightarrow> lookup ne nid = es"
  by (simp add: lookup_def)

lemma map_of_zip_map:
  "map_of (zip ks (map f ks)) k = (if k \<in> set ks then Some (f k) else None)"
  by (induction ks) auto

lemma lifetime_of_entry:
  assumes "distinct (map fst ne)" and "(nid, es) \<in> set ne"
  shows "lifetime_of ne nid = Some (length es)"
proof -
  have "nid \<in> set (sort (map fst ne))"
    using assms(2) by force
  then show ?thesis
    using lookup_entry [OF assms]
    by (simp add: lifetime_of_def lifetime_table_def Let_def map_of_zip_map)
qed

lemma sum_over_keys:
  assumes "distinct (map fst ne)"
  shows "map (\<lambda>nid. lookup ne nid ! i) (filter (\<lambda>nid. i < length (lookup ne nid)) (map fst ne))
       = map (\<lambda>es. es ! i) (filter (\<lambda>es. i < length es) (map snd ne))"
proof -
  have eq: "\<And>x. x \<in> set ne \<Longrightarrow> lookup ne (fst x) = snd x"
    using lookup_entry [OF assms] by (metis prod.collapse)
  have "filter (\<lambda>nid. i < length (lookup ne nid)) (map fst ne)
      = map fst (filter (\<lambda>x. i < length (lookup ne (fst x))) ne)"
    by (simp add: filter_map comp_def)
  also have "filter (\<lambda>x. i < length (lookup ne (fst x))) ne = filter (\<lambda>x. i < length (snd x)) ne"
    by (rule filter_cong) (simp_all add: eq)
  finally have "map (\<lambda>nid. lookup ne nid ! i) (filter (\<lambda>nid. i < length (lookup ne nid)) (map fst ne))
      = map (\<lambda>x. lookup ne (fst x) ! i) (filter (\<lambda>x. i < length (snd x)) ne)"
    by (simp add: comp_def)
  also have "\<dots> = map (\<lambda>x. snd x ! i) (filter (\<lambda>x. i < length (snd x)) ne)"
    by (rule map_cong) (simp_all add: eq)
  also have "\<dots> = map (\<lambda>es. es ! i) (filter (\<lambda>es. i < length es) (map snd ne))"
    by (simp add: filter_map comp_def)
  finally show ?thesis .
qed

text \<open>
  Claim C1. For a mapping with at least one node (and keys that are distinct, as the
  keys of a dictionary are), the chart of the average holds one line, over the time
  sequence, with one value for each time index; the value at index \<open>i\<close> is the sum of the
  readings at \<open>i\<close> of the sequences that have more than \<open>i\<close> elements, divided by the
  number of all nodes.
\<close>

theorem average_series:
  assumes "ne \<noteq> []" and "distinct (map fst ne)"
  shows "drawn (plot_average_energy tms ne file) = [Line tms (avg_energy tms ne) ''Average Energy'']
       \<and> length (avg_energy tms ne) = length tms
       \<and> (\<forall>i < length tms.
            avg_energy tms ne ! i
              = sum_list (map (\<lambda>es. es ! i) (filter (\<lambda>es. i < length es) (map snd ne)))
                / real (card (fst ` set ne)))"
proof -
  have card: "card (fst ` set ne) = length ne"
    using distinct_card [OF assms(2)] by simp
  have pos: "0 < length ne"
    using assms(1) by simp
  show ?thesis
    using assms(1) pos
    by (simp add: drawn_def plot_average_energy_def save_and_report_def avg_energy_def
        Let_def card sum_over_keys [OF assms(2)])
qed

text \<open>Node 2 has one reading only: at index 1 the sum 900 is still divided by 2.\<close>

theorem average_series_witness:
  "[(1, [1000, 900]), (2, [950])] \<noteq> ([] :: energy_series)
   \<and> distinct (map fst [(1 :: nat, [1000, 900 :: real]), (2, [950])])
   \<and> drawn (plot_average_energy [0, 1] [(1, [1000, 900]), (2, [950])] ''average_energy.png'')
       = [Line [0, 1] [975, 450] ''Average Energy'']
   \<and> length (avg_energy [0, 1] [(1, [1000, 900]), (2, [950])]) = 2
   \<and> avg_energy [0, 1] [(1, [1000, 900]), (2, [950])] ! 1 = 900 / 2"
proof -
  have ne: "[(1, [1000, 900]), (2, [950])] \<noteq> ([] :: energy_series)"
    and d: "distinct (map fst [(1 :: nat, [1000, 900 :: real]), (2, [950])])"
    by simp_all
  have v: "avg_energy [0, 1] [(1, [1000, 900]), (2, [950])] = [975, 450]"
    by code_simp
  note t = average_series [OF ne d, of "[0, 1]" "''average_energy.png''"]
  from t have
    "drawn (plot_average_energy [0, 1] [(1, [1000, 900]), (2, [950])] ''average_energy.png'')
       = [Line [0, 1] (avg_energy [0, 1] [(1, [1000, 900]), (2, [950])]) ''Average Energy'']"
    by blast
  moreover from t have
    "length (avg_energy [0, 1] [(1, [1000, 900]), (2, [950])]) = length [0, 1 :: real]"
    by blast
  ultimately show ?thesis
    using ne d v by simp
qed

text \<open>
  Claim C4. The entry of a node in the table of lifetimes is the length of the sequence
  of that node; it is the same in every other mapping that gives the node the same
  sequence, whatever the other nodes, their readings and their order are; and after a
  run of the first pass it is the number of energy matches of that node in the log.
\<close>

theorem lifetime_is_sequence_length:
  assumes "distinct (map fst ne)" and "(nid, es) \<in> set ne"
  shows "lifetime_of ne nid = Some (length es)
       \<and> (\<forall>ne'. distinct (map fst ne') \<longrightarrow> (nid, es) \<in> set ne'
             \<longrightarrow> lifetime_of ne' nid = lifetime_of ne nid)
       \<and> (\<forall>lines tms. energy_loop lines ([], []) = Inr (tms, ne)
             \<longrightarrow> lifetime_of ne nid = Some (length (readings_of nid (energy_events lines))))"
proof (intro conjI allI impI)
  show "lifetime_of ne nid = Some (length es)"
    by (rule lifetime_of_entry [OF assms])
next
  fix ne' :: energy_series
  assume "distinct (map fst ne')" and "(nid, es) \<in> set ne'"
  then show "lifetime_of ne' nid = lifetime_of ne nid"
    using lifetime_of_entry [OF assms] by (simp add: lifetime_of_entry)
next
  fix lines tms
  assume run: "energy_loop lines ([], []) = Inr (tms, ne)"
  have "lookup ne nid = lookup [] nid @ readings_of nid (energy_events lines)"
    using energy_loop_char [OF run] by simp
  then have "es = readings_of nid (energy_events lines)"
    using lookup_entry [OF assms] by (simp add: lookup_def)
  then show "lifetime_of ne nid = Some (length (readings_of nid (energy_events lines)))"
    using lifetime_of_entry [OF assms] by simp
qed

theorem lifetime_is_sequence_length_witness:
  "distinct (map fst scenario_energy) \<and> (1, [1000, 900]) \<in> set scenario_energy
   \<and> lifetime_of scenario_energy 1 = Some 2
   \<and> lifetime_of [(7, [3]), (1, [1000, 900])] 1 = lifetime_of scenario_energy 1
   \<and> lifetime_of scenario_energy 1
       = Some (length (readings_of 1 (energy_events (file_lines scenario_text))))"
proof -
  have d: "distinct (map fst scenario_energy)"
    and m: "(1, [1000, 900]) \<in> set scenario_energy"
    by (simp_all add: scenario_energy_def)
  have d': "distinct (map fst [(7 :: nat, [3 :: real]), (1, [1000, 900])])"
    and m': "(1, [1000, 900]) \<in> set [(7 :: nat, [3 :: real]), (1, [1000, 900])]"
    by simp_all
  note t = lifetime_is_sequence_length [OF d m]
  from t have "lifetime_of scenario_energy 1 = Some 2"
    by simp
  moreover from t d' m' have
    "lifetime_of [(7, [3]), (1, [1000, 900])] 1 = lifetime_of scenario_energy 1"
    by blast
  moreover from t scenario_energy_loop have
    "lifetime_of scenario_energy 1
       = Some (length (readings_of 1 (energy_events (file_lines scenario_text))))"
    by blast
  ultimately show ?thesis
    using d m by blast
qed

subsection \<open>The first pass\<close>



lemma mixed_lines_events:
  "time_events mixed_lines = [2]
   \<and> energy_events mixed_lines = [(3, 11 / 2), (1, 7), (3, 4)]"
  by code_simp


subsection \<open>The second pass\<close>

lemma splits_append: "(a, r) \<in> set (splits P s) \<Longrightarrow> s = a @ r"
  by (induction s arbitrary: a r) (auto split: if_splits)

lemma strip_prefix_Some: "strip_prefix l s = Some r \<Longrightarrow> s = l @ r"
  by (metis append_take_drop_id option.discI option.inject strip_prefix_def)

lemma strip_prefix_append: "strip_prefix l (l @ r) = Some r"
  by (simp add: strip_prefix_def)

lemma splits_empty: "([], s) \<in> set (splits P s)"
  by (cases s) auto

lemma splits_complete: "list_all P x \<Longrightarrow> (x, y) \<in> set (splits P (x @ y))"
proof (induction x)
  case Nil
  then show ?case by (simp add: splits_empty)
next
  case (Cons c x)
  then have "(x, y) \<in> set (splits P (x @ y))" and "P c" by simp_all
  then show ?case by force
qed

lemma matches_Lit_nonempty:
  "matches (Lit l # p) s \<noteq> [] \<Longrightarrow> \<exists>r. s = l @ r \<and> matches p r \<noteq> []"
  by (auto split: option.splits dest: strip_prefix_Some)

lemma matches_AnyStar_nonempty:
  "matches (AnyStar # p) s \<noteq> [] \<Longrightarrow>
     \<exists>a r. s = a @ r \<and> list_all dot a \<and> matches p r \<noteq> []"
  by auto (blast dest: splits_append splits_run)

lemma matches_Cap_nonempty:
  "matches (Cap k # p) s \<noteq> [] \<Longrightarrow>
     \<exists>a r. s = a @ r \<and> a \<noteq> [] \<and> list_all (in_class k) a \<and> matches p r \<noteq> []"
  by auto (blast dest: splits_append splits_run)

lemma matches_Lit_intro: "matches p r \<noteq> [] \<Longrightarrow> matches (Lit l # p) (l @ r) \<noteq> []"
  by (simp add: strip_prefix_append)

lemma matches_AnyStar_intro:
  "list_all dot a \<Longrightarrow> matches p r \<noteq> [] \<Longrightarrow> matches (AnyStar # p) (a @ r) \<noteq> []"
  using splits_complete [of dot a r] by force

lemma matches_Cap_intro:
  "a \<noteq> [] \<Longrightarrow> list_all (in_class k) a \<Longrightarrow> matches p r \<noteq> [] \<Longrightarrow>
     matches (Cap k # p) (a @ r) \<noteq> []"
  using splits_complete [of "in_class k" a r] by force

lemma re_search_Some: "re_search p s = Some g \<Longrightarrow> \<exists>a r. s = a @ r \<and> matches p r \<noteq> []"
proof (induction s)
  case Nil
  then show ?case by (auto split: list.splits)
next
  case (Cons c cs)
  show ?case
  proof (cases "matches p (c # cs)")
    case Nil
    then have "re_search p cs = Some g" using Cons.prems by simp
    then obtain a r where "cs = a @ r" "matches p r \<noteq> []" using Cons.IH by blast
    then have "c # cs = (c # a) @ r" by simp
    then show ?thesis using \<open>matches p r \<noteq> []\<close> by blast
  next
    case (Cons g' gs)
    then have "c # cs = [] @ (c # cs) \<and> matches p (c # cs) \<noteq> []" by simp
    then show ?thesis by blast
  qed
qed

lemma re_search_intro: "matches p r \<noteq> [] \<Longrightarrow> re_search p (a @ r) \<noteq> None"
proof (induction a)
  case Nil
  then show ?case by (cases r) (auto split: list.splits)
next
  case (Cons c a)
  then show ?case by (auto split: list.splits)
qed

lemma pdr_match_both_fields:
  "pdr_match line \<noteq> None \<longleftrightarrow> has_both_fields line"
proof
  assume "pdr_match line \<noteq> None"
  then obtain g where "re_search pdr_pattern line = Some g"
    by (auto simp: pdr_match_def split: option.splits)
  then obtain a r0 where l: "line = a @ r0" and m0: "matches pdr_pattern r0 \<noteq> []"
    using re_search_Some by blast
  from m0 obtain r1 where r0: "r0 = ''PDR: '' @ r1"
    and m1: "matches [Cap DigitDot, AnyStar, Lit ''time '', Cap DigitDot] r1 \<noteq> []"
    unfolding pdr_pattern_def using matches_Lit_nonempty by blast
  from m1 obtain r r2 where r1: "r1 = r @ r2" and rr: "r \<noteq> []" "list_all (in_class DigitDot) r"
    and m2: "matches [AnyStar, Lit ''time '', Cap DigitDot] r2 \<noteq> []"
    using matches_Cap_nonempty by blast
  from m2 obtain b r3 where r2: "r2 = b @ r3" and bb: "list_all dot b"
    and m3: "matches [Lit ''time '', Cap DigitDot] r3 \<noteq> []"
    using matches_AnyStar_nonempty by blast
  from m3 obtain r4 where r3: "r3 = ''time '' @ r4" and m4: "matches [Cap DigitDot] r4 \<noteq> []"
    using matches_Lit_nonempty by blast
  from m4 obtain t c where r4: "r4 = t @ c" and tt: "t \<noteq> []" "list_all (in_class DigitDot) t"
    using matches_Cap_nonempty by blast
  have "line = a @ ''PDR: '' @ r @ b @ ''time '' @ t @ c"
    using l r0 r1 r2 r3 r4 by simp
  then show "has_both_fields line"
    using rr bb tt by blast
next
  assume "has_both_fields line"
  then obtain a r b t c where l: "line = a @ ''PDR: '' @ r @ b @ ''time '' @ t @ c"
    and rr: "r \<noteq> []" "list_all (in_class DigitDot) r" and bb: "list_all dot b"
    and tt: "t \<noteq> []" "list_all (in_class DigitDot) t"
    by blast
  have "matches [] c \<noteq> []" by simp
  then have "matches [Cap DigitDot] (t @ c) \<noteq> []"
    using tt by (rule_tac matches_Cap_intro)
  then have "matches [Lit ''time '', Cap DigitDot] (''time '' @ t @ c) \<noteq> []"
    by (rule matches_Lit_intro)
  then have "matches [AnyStar, Lit ''time '', Cap DigitDot] (b @ ''time '' @ t @ c) \<noteq> []"
    using bb by (rule_tac matches_AnyStar_intro)
  then have "matches [Cap DigitDot, AnyStar, Lit ''time '', Cap DigitDot]
               (r @ b @ ''time '' @ t @ c) \<noteq> []"
    using rr by (rule_tac matches_Cap_intro)
  then have "matches pdr_pattern (''PDR: '' @ r @ b @ ''time '' @ t @ c) \<noteq> []"
    unfolding pdr_pattern_def by (rule matches_Lit_intro)
  then have "re_search pdr_pattern line \<noteq> None"
    unfolding l by (rule re_search_intro)
  then show "pdr_match line \<noteq> None"
    by (auto simp: pdr_match_def split: option.splits)
qed

lemma pdr_step_cases:
  assumes "pdr_step l (tms0, pdr0) = Inr (tms1, pdr1)"
  shows "(\<forall>e. pdr_match l \<noteq> Some (Inl e))
       \<and> tms1 = tms0 @ map snd (pdr_events [l]) \<and> pdr1 = pdr0 @ map fst (pdr_events [l])"
  using assms
  by (auto simp: pdr_step_def pdr_events_def split: option.splits sum.splits prod.splits)

lemma pdr_events_Cons: "pdr_events (l # ls) = pdr_events [l] @ pdr_events ls"
  by (simp add: pdr_events_def)

lemma pdr_loop_char:
  assumes "pdr_loop lines (tms0, pdr0) = Inr (tms, pdrs)"
  shows "tms = tms0 @ map snd (pdr_events lines) \<and> pdrs = pdr0 @ map fst (pdr_events lines)
       \<and> (\<forall>line \<in> set lines. \<forall>e. pdr_match line \<noteq> Some (Inl e))"
  using assms
proof (induction lines arbitrary: tms0 pdr0)
  case Nil
  then show ?case by (simp add: pdr_events_def)
next
  case (Cons l ls)
  from Cons.prems obtain tms1 pdr1 where
    step: "pdr_step l (tms0, pdr0) = Inr (tms1, pdr1)" and
    rest: "pdr_loop ls (tms1, pdr1) = Inr (tms, pdrs)"
    by (auto split: sum.splits)
  show ?case
    using Cons.IH [OF rest] pdr_step_cases [OF step]
    by (simp add: pdr_events_Cons [of l ls])
qed

text \<open>
  Claim C6. When the second pass returns, its two sequences have the same length: they
  are the second and the first components of the rows of the matching lines, in order. A
  line without a match leaves both sequences as they are, and a line has a match exactly
  when it holds both fields: a ratio value after its marker and, later on the same line,
  a time value after its marker. A line with one field only, or with a marker and no
  value, adds nothing to either sequence.
\<close>

theorem pdr_rows_are_atomic:
  assumes "pdr_loop lines ([], []) = Inr (tms, pdrs)"
  shows "length tms = length pdrs
       \<and> tms = map snd (pdr_events lines) \<and> pdrs = map fst (pdr_events lines)
       \<and> (\<forall>line st. pdr_match line = None \<longrightarrow> pdr_step line st = Inr st)
       \<and> (\<forall>line. pdr_match line \<noteq> None \<longleftrightarrow> has_both_fields line)"
  using pdr_loop_char [OF assms] pdr_match_both_fields
  by (auto simp: pdr_step_def)

lemma pdr_lines_run: "pdr_loop pdr_lines ([], []) = Inr ([100], [17 / 20])"
  by code_simp

lemma pdr_half_lines:
  "pdr_match ''PDR: 0.85\<newline>'' = None \<and> pdr_match ''at time 5.0\<newline>'' = None
   \<and> pdr_match ''PDR: 0.85 at time unknown\<newline>'' = None
   \<and> pdr_match ''PDR: 0.85 at time 100.0\<newline>'' = Some (Inr (17 / 20, 100))"
  by code_simp

theorem pdr_rows_are_atomic_witness:
  "pdr_loop pdr_lines ([], []) = Inr ([100], [17 / 20])
   \<and> length [100 :: real] = length [17 / 20 :: real]
   \<and> pdr_match ''PDR: 0.85 at time unknown\<newline>'' = None
   \<and> pdr_step ''PDR: 0.85 at time unknown\<newline>'' ([100], [17 / 20]) = Inr ([100], [17 / 20])
   \<and> \<not> has_both_fields ''PDR: 0.85 at time unknown\<newline>''
   \<and> \<not> has_both_fields ''PDR: 0.85\<newline>''
   \<and> pdr_match ''PDR: 0.85 at time 100.0\<newline>'' \<noteq> None
   \<and> has_both_fields ''PDR: 0.85 at time 100.0\<newline>''"
proof -
  note t = pdr_rows_are_atomic [OF pdr_lines_run]
  from t have step: "\<forall>line st. pdr_match line = None \<longrightarrow> pdr_step line st = Inr st"
    by (elim conjE)
  from t have fields: "\<forall>line. pdr_match line \<noteq> None \<longleftrightarrow> has_both_fields line"
    by (elim conjE)
  have n: "pdr_match ''PDR: 0.85 at time unknown\<newline>'' = None"
    and h: "pdr_match ''PDR: 0.85\<newline>'' = None"
    and y: "pdr_match ''PDR: 0.85 at time 100.0\<newline>'' \<noteq> None"
    using pdr_half_lines by simp_all
  have "pdr_step ''PDR: 0.85 at time unknown\<newline>'' ([100], [17 / 20]) = Inr ([100], [17 / 20])"
    using step [rule_format, OF n] .
  moreover have "\<not> has_both_fields ''PDR: 0.85 at time unknown\<newline>''"
    using fields [rule_format, of "''PDR: 0.85 at time unknown\<newline>''"] n by simp
  moreover have "\<not> has_both_fields ''PDR: 0.85\<newline>''"
    using fields [rule_format, of "''PDR: 0.85\<newline>''"] h by simp
  moreover have "has_both_fields ''PDR: 0.85 at time 100.0\<newline>''"
    using fields [rule_format, of "''PDR: 0.85 at time 100.0\<newline>''"] y by simp
  ultimately show ?thesis
    using pdr_lines_run n y by simp
qed

subsection \<open>Missing files\<close>

text \<open>
  Claim C8. When the path of the log names nothing, \<^verbatim>\<open>main\<close> returns without an
  exception after the message of the extractor and its own; no figure is saved, so no
  chart of energy, of the ratio or of anything else is made.
\<close>

theorem missing_file_terminates_early:
  assumes "fs (log_file_of argv) = None"
  shows "main fs argv =
           (Inr (),
            [Print banner,
             Print ''Energy-Aware Epidemic Routing - Graph Generation'',
             Print banner,
             Print (''\<newline>Parsing log file: '' @ log_file_of argv),
             Print (''Error: File '' @ log_file_of argv @ '' not found''),
             Print ''Error: Could not parse log file''])
       \<and> saved_files (snd (main fs argv)) = []
       \<and> drawn (snd (main fs argv)) = []"
  using assms
  by (simp add: main_def parse_energy_log_def path_exists_def Let_def saved_files_def drawn_def)

theorem missing_file_terminates_early_witness:
  "Map.empty (log_file_of [''generate_graphs.py'', ''missing.log'']) = (None :: fs_entry option)
   \<and> main Map.empty [''generate_graphs.py'', ''missing.log''] =
       (Inr (),
        [Print banner,
         Print ''Energy-Aware Epidemic Routing - Graph Generation'',
         Print banner,
         Print ''\<newline>Parsing log file: missing.log'',
         Print ''Error: File missing.log not found'',
         Print ''Error: Could not parse log file''])
   \<and> saved_files (snd (main Map.empty [''generate_graphs.py'', ''missing.log''])) = []"
proof -
  have l: "log_file_of [''generate_graphs.py'', ''missing.log''] = ''missing.log''"
    by (simp add: log_file_of_def)
  from missing_file_terminates_early
    [of Map.empty "[''generate_graphs.py'', ''missing.log'']"]
  show ?thesis
    by (simp add: l saved_files_def)
qed

end
